theory Spec2Isabelle
  imports Complex_Main "HOL-Library.Multiset"
begin

section \<open>Data model\<close>

text \<open>
  The evaluated dataframe of \<^verbatim>\<open>clean_text_and_evaluate_BM25.py\<close> is a list of rows in
  dataframe order. A row carries its index label (\<^verbatim>\<open>df.index\<close>), the columns the
  ranking and the metrics read, and the two columns the script adds (\<^verbatim>\<open>bm25\<close>,
  \<^verbatim>\<open>rank\<close>). Scores are real numbers: the model idealises NumPy's float64 and keeps
  only the distinction between a finite value and a non-finite one (nan, inf).
  Ranks are naturals: \<^verbatim>\<open>rank(...)\<close> followed by \<^verbatim>\<open>astype(int)\<close> yields positive integers.
\<close>

type_synonym token = string

record row =
  idx :: int
  qid :: int
  pid :: int
  clean_queries :: "token list"
  clean_passages :: "token list"
  relevancy :: int
  bm25 :: real
  rank :: nat

datatype error = KeyError | ZeroDivisionError | IndexError | ValueError

datatype npfloat = Finite real | NotFinite

text \<open>\<^verbatim>\<open>x / y\<close> on a float64 \<^verbatim>\<open>x\<close>: a zero divisor gives inf or nan with a warning, no exception.\<close>

definition np_div :: "real \<Rightarrow> real \<Rightarrow> npfloat" where
  "np_div x y = (if y = 0 then NotFinite else Finite (x / y))"

fun finite_values :: "npfloat list \<Rightarrow> real list option" where
  "finite_values [] = Some []"
| "finite_values (NotFinite # xs) = None"
| "finite_values (Finite v # xs) =
     (case finite_values xs of None \<Rightarrow> None | Some vs \<Rightarrow> Some (v # vs))"

text \<open>\<^verbatim>\<open>np.mean\<close>: nan on an empty list, non-finite as soon as one entry is.\<close>

definition np_mean :: "npfloat list \<Rightarrow> npfloat" where
  "np_mean xs =
     (case finite_values xs of
        None \<Rightarrow> NotFinite
      | Some vs \<Rightarrow> if vs = [] then NotFinite else Finite (sum_list vs / real (length vs)))"

section \<open>BM25 feature\<close>






section \<open>BM25 scorer\<close>










section \<open>Ranking\<close>

text \<open>
  Modelled from the spec: \<^verbatim>\<open>Series.rank(ascending=False, method='first')\<close> of pandas, which
  line 184 calls on each group, is library code that is not under \<^verbatim>\<open>src/\<close>. The spec's
  contract for it (section 4.2) is a stable sort on descending score that keeps the
  original order of equal values; the rank of an entry is its position in that order,
  counted from 1. \<open>rank_order\<close> is the sorted list of positions, \<open>rank_scores\<close> the rank of
  each entry.
\<close>

definition rank_order :: "real list \<Rightarrow> nat list" where
  "rank_order scores = sort_key (\<lambda>i. - scores ! i) [0..<length scores]"

definition rank_scores :: "real list \<Rightarrow> nat list" where
  "rank_scores scores =
     map (\<lambda>i. 1 + length (takeWhile (\<lambda>j. j \<noteq> i) (rank_order scores))) [0..<length scores]"

text \<open>
  Lines 184-185, \<^verbatim>\<open>df['rank'] = df.groupby('qid')['bm25'].rank(...)\<close> and \<^verbatim>\<open>astype(int)\<close>: the
  scores of each qid are ranked as one group, and the ranks of a group are written back
  to its rows in dataframe order. \<open>seen q\<close> counts the rows of qid \<open>q\<close> already passed.
\<close>

fun assign_from :: "(int \<Rightarrow> nat list) \<Rightarrow> (int \<Rightarrow> nat) \<Rightarrow> row list \<Rightarrow> row list" where
  "assign_from ranks seen [] = []"
| "assign_from ranks seen (r # rs) =
     r\<lparr>rank := ranks (qid r) ! seen (qid r)\<rparr> #
     assign_from ranks (seen(qid r := seen (qid r) + 1)) rs"

definition assign_rank :: "row list \<Rightarrow> row list" where
  "assign_rank df =
     assign_from (\<lambda>q. rank_scores (map bm25 (filter (\<lambda>r. qid r = q) df))) (\<lambda>q. 0) df"

text \<open>The order of the stable descending sort: higher score first, equal scores by position.\<close>

definition precedes :: "real list \<Rightarrow> nat \<Rightarrow> nat \<Rightarrow> bool" where
  "precedes scores i j = (scores ! j < scores ! i \<or> (scores ! i = scores ! j \<and> i < j))"

section \<open>Precision\<close>

text \<open>
  \<^verbatim>\<open>mean_precision(df, validation_qid)\<close>, lines 142-151.
  \<^verbatim>\<open>df[df['qid']==qid]['rank'].head(100).index\<close> are the index labels of the first 100
  rows of the query in dataframe order; \<^verbatim>\<open>overlap_count/len(top100)\<close> divides two Python
  integers and raises \<^verbatim>\<open>ZeroDivisionError\<close> when the query has no row.
\<close>

fun precision_loop ::
  "row list \<Rightarrow> int list \<Rightarrow> real list \<Rightarrow> nat list \<Rightarrow> error + (real list \<times> nat list)" where
  "precision_loop df [] precision_per_qid retrieved = Inr (precision_per_qid, retrieved)"
| "precision_loop df (q # qs) precision_per_qid retrieved =
     (let top100 = map idx (take 100 (filter (\<lambda>r. qid r = q) df));
          overlap_count = length (filter (\<lambda>r. relevancy r = 1 \<and> idx r \<in> set top100) df)
      in if length top100 = 0 then Inl ZeroDivisionError
         else precision_loop df qs
                (precision_per_qid @ [real overlap_count / real (length top100)])
                (retrieved @ [length top100]))"

definition mean_precision :: "row list \<Rightarrow> int list \<Rightarrow> error + (npfloat \<times> nat list)" where
  "mean_precision df validation_qid =
     (case precision_loop df validation_qid [] [] of
        Inl e \<Rightarrow> Inl e
      | Inr (precision_per_qid, retrieved) \<Rightarrow>
          Inr (np_mean (map Finite precision_per_qid), retrieved))"

section \<open>NDCG\<close>

text \<open>
  \<^verbatim>\<open>mean_ndcg(df, retrieved)\<close>, lines 153-180. \<open>IDCG_list\<close> is the first loop.
  \<open>ndcg_loop\<close> is the loop over the rows with \<^verbatim>\<open>relevancy == 1\<close>; its arguments after the
  rows are the loop's variables \<^verbatim>\<open>done_qid\<close>, \<^verbatim>\<open>d\<close>, \<^verbatim>\<open>index\<close>, \<^verbatim>\<open>counter\<close>, \<^verbatim>\<open>DCG\<close> and
  \<^verbatim>\<open>NDCG\<close>. \<^verbatim>\<open>IDCG[index]\<close> raises \<^verbatim>\<open>IndexError\<close> past the end of the list. Nothing follows
  the loop but \<^verbatim>\<open>return np.mean(NDCG)\<close>.
\<close>

definition IDCG_list :: "nat list \<Rightarrow> real list" where
  "IDCG_list retrieved =
     map (\<lambda>element. sum_list (map (\<lambda>i. 1 / log 2 (real i + 1)) [1..<element + 1])) retrieved"

fun ndcg_loop ::
  "real list \<Rightarrow> row list \<Rightarrow> int list \<Rightarrow> real \<Rightarrow> nat \<Rightarrow> nat \<Rightarrow> real list \<Rightarrow> npfloat list
     \<Rightarrow> error + npfloat list" where
  "ndcg_loop IDCG [] done_qid d index counter DCG NDCG = Inr NDCG"
| "ndcg_loop IDCG (r # rs) done_qid d index counter DCG NDCG =
     (if qid r \<notin> set done_qid \<and> counter > 0
      then (if index < length IDCG
            then ndcg_loop IDCG rs (done_qid @ [qid r]) (1 / log 2 (real (rank r) + 2))
                   (index + 1) (counter + 1) (DCG @ [d]) (NDCG @ [np_div d (IDCG ! index)])
            else Inl IndexError)
      else ndcg_loop IDCG rs done_qid (d + 1 / log 2 (real (rank r) + 2))
             index (counter + 1) DCG NDCG)"

text \<open>The function on a dataframe that is already sorted by qid.\<close>

definition mean_ndcg_sorted :: "row list \<Rightarrow> nat list \<Rightarrow> error + npfloat" where
  "mean_ndcg_sorted sdf retrieved =
     (case ndcg_loop (IDCG_list retrieved) (filter (\<lambda>r. relevancy r = 1) sdf) [] 0 0 0 [] [] of
        Inl e \<Rightarrow> Inl e
      | Inr NDCG \<Rightarrow> Inr (np_mean NDCG))"

text \<open>
  \<^verbatim>\<open>df.sort_values(by='qid', inplace=True)\<close>. The model sorts stably; pandas' default
  sort does not promise the order of rows with equal qid, so the general results below
  are proved of \<open>mean_ndcg_sorted\<close>, for every arrangement that is sorted by qid.
\<close>

definition mean_ndcg :: "row list \<Rightarrow> nat list \<Rightarrow> error + npfloat" where
  "mean_ndcg df retrieved = mean_ndcg_sorted (sort_key qid df) retrieved"




section \<open>Example dataframes\<close>

text \<open>A row with the columns the metrics read; the text columns are empty.\<close>

definition judged_row :: "int \<Rightarrow> int \<Rightarrow> int \<Rightarrow> real \<Rightarrow> nat \<Rightarrow> row" where
  "judged_row i q rel s rk =
     \<lparr>idx = i, qid = q, pid = i, clean_queries = [], clean_passages = [],
      relevancy = rel, bm25 = s, rank = rk\<rparr>"



text \<open>Two queries with one candidate each, relevant and ranked first.\<close>

definition two_query_df :: "row list" where
  "two_query_df = [judged_row 0 1 1 1 1, judged_row 1 2 1 1 1]"

text \<open>
  A perfect ranking: query 1 has two candidates, the relevant one ranked first; query 2 has
  one candidate, relevant.
\<close>

definition perfect_df :: "row list" where
  "perfect_df = [judged_row 0 1 1 2 1, judged_row 1 1 0 1 2, judged_row 2 2 1 1 1]"



text \<open>
  One query with 101 candidates: the first 100 rows are not relevant and hold the ranks 2
  to 101, the last row is relevant and holds rank 1.
\<close>

definition long_query_df :: "row list" where
  "long_query_df =
     map (\<lambda>i. judged_row (int i) 1 0 0 (i + 2)) [0..<100] @ [judged_row 100 1 1 1 1]"

text \<open>Scores with ties: query 1 has the scores 2, 5, 2, 5; a row of query 2 stands between them.\<close>

definition tie_df :: "row list" where
  "tie_df = [judged_row 0 1 0 2 0, judged_row 1 1 1 5 0, judged_row 2 2 1 7 0,
             judged_row 3 1 0 2 0, judged_row 4 1 0 5 0]"




section \<open>Results\<close>

lemma precision_loop_empty_candidates:
  "q \<in> set qs \<Longrightarrow> filter (\<lambda>r. qid r = q) df = [] \<Longrightarrow> precision_loop df qs ps rs = Inl ZeroDivisionError"
proof (induction qs arbitrary: ps rs)
  case Nil
  then show ?case by simp
next
  case (Cons a qs)
  show ?case
  proof (cases "filter (\<lambda>r. qid r = a) df = []")
    case True
    then show ?thesis by simp
  next
    case False
    with Cons.prems have "q \<in> set qs" by auto
    with Cons.IH Cons.prems(2) False show ?thesis by (simp add: Let_def)
  qed
qed

lemma precision_loop_ok:
  "\<forall>q\<in>set qs. filter (\<lambda>r. qid r = q) df \<noteq> [] \<Longrightarrow>
   precision_loop df qs ps rs =
     Inr (ps @ map (\<lambda>q. real (length (filter (\<lambda>r. relevancy r = 1 \<and>
                 idx r \<in> set (map idx (take 100 (filter (\<lambda>r. qid r = q) df)))) df))
               / real (min 100 (length (filter (\<lambda>r. qid r = q) df)))) qs,
          rs @ map (\<lambda>q. min 100 (length (filter (\<lambda>r. qid r = q) df))) qs)"
  by (induction qs arbitrary: ps rs) (auto simp: Let_def min_def)

subsection \<open>C8: a query with an empty candidate set\<close>

text \<open>
  C8, as stated, fails: \<^verbatim>\<open>mean_precision\<close> has no skip. On the empty dataframe and the
  qid list \<^verbatim>\<open>[1]\<close> the division \<^verbatim>\<open>overlap_count/len(top100)\<close> is \<^verbatim>\<open>0/0\<close> on Python
  integers and raises \<^verbatim>\<open>ZeroDivisionError\<close>.
\<close>

theorem mean_precision_empty_candidates_counterexample:
  "mean_precision [] [1] = Inl ZeroDivisionError"
  by (simp add: mean_precision_def)

text \<open>
  C8, amended: \<^verbatim>\<open>mean_precision\<close> raises \<^verbatim>\<open>ZeroDivisionError\<close> exactly when some qid of the
  list has an empty candidate set in the dataframe, and it returns a result exactly when
  every qid of the list has at least one row.
\<close>

theorem mean_precision_empty_candidates:
  "(mean_precision df validation_qid = Inl ZeroDivisionError) =
     (\<exists>q\<in>set validation_qid. filter (\<lambda>r. qid r = q) df = []) \<and>
   (\<exists>res. mean_precision df validation_qid = Inr res) =
     (\<forall>q\<in>set validation_qid. filter (\<lambda>r. qid r = q) df \<noteq> [])"
proof (cases "\<exists>q\<in>set validation_qid. filter (\<lambda>r. qid r = q) df = []")
  case True
  then have "mean_precision df validation_qid = Inl ZeroDivisionError"
    by (auto simp: mean_precision_def precision_loop_empty_candidates)
  with True show ?thesis by auto
next
  case False
  then have all: "\<forall>q\<in>set validation_qid. filter (\<lambda>r. qid r = q) df \<noteq> []" by blast
  from precision_loop_ok [OF all, of "[]" "[]"]
  have "\<exists>res. mean_precision df validation_qid = Inr res"
    by (simp add: mean_precision_def)
  with False all show ?thesis by auto
qed

text \<open>
  Witness for C8, amended: the qid 7 has no row in a dataframe that holds one row of
  qid 3, and the call raises.
\<close>

theorem mean_precision_empty_candidates_witness:
  "(\<exists>q\<in>set [3, 7]. filter (\<lambda>r. qid r = q)
       [\<lparr>idx = 0, qid = 3, pid = 1, clean_queries = [], clean_passages = [],
         relevancy = 1, bm25 = 0, rank = 1\<rparr>] = []) \<and>
   mean_precision
     [\<lparr>idx = 0, qid = 3, pid = 1, clean_queries = [], clean_passages = [],
       relevancy = 1, bm25 = 0, rank = 1\<rparr>] [3, 7] = Inl ZeroDivisionError"
  using mean_precision_empty_candidates
    [of "[\<lparr>idx = 0, qid = 3, pid = 1, clean_queries = [], clean_passages = [],
            relevancy = 1, bm25 = 0, rank = 1\<rparr>]" "[3, 7]"]
  by simp

subsection \<open>The loop of \<^verbatim>\<open>bm25_feature\<close>\<close>










subsection \<open>C9: degenerate BM25 input\<close>




subsection \<open>C10: the order of the returned scores\<close>



subsection \<open>The loop of \<^verbatim>\<open>mean_ndcg\<close>\<close>









lemma IDCG_one: "IDCG_list [Suc 0] = [1]"
  by (simp add: IDCG_list_def)


lemma IDCG_two_one: "IDCG_list [2, Suc 0] = [1 + 1 / log 2 3, 1]"
  by (simp add: IDCG_list_def upt_rec)

lemma log_2_3_pos: "0 < log 2 (3::real)"
  by simp

lemma ratio_pos: "0 < (x::real) \<Longrightarrow> 1 + 1 / x \<noteq> 0"
  by (smt (verit) divide_pos_pos)

lemma ratio_lt_one: "0 < (x::real) \<Longrightarrow> (1 / x) / (1 + 1 / x) < 1"
  by (simp add: field_simps)

lemma idcg_two_pos: "1 + 1 / log 2 (3::real) \<noteq> 0"
  by (rule ratio_pos [OF log_2_3_pos])

subsection \<open>C2: the discount of the DCG\<close>

text \<open>
  C2 states the DCG with the discount \<open>1 / log\<^sub>2 (rank + 1)\<close> on the 1-indexed rank, as the
  loop for the IDCG has it (\<^verbatim>\<open>1/np.log2(i + 1)\<close> for \<^verbatim>\<open>i\<close> from 1). The loop for the DCG adds
  \<^verbatim>\<open>1/np.log2(i+2)\<close> with \<^verbatim>\<open>i = row['rank']\<close>. On two queries with one candidate each,
  relevant and ranked first, \<^verbatim>\<open>mean_precision\<close> returns the retrieved counts \<^verbatim>\<open>[1, 1]\<close> and
  \<^verbatim>\<open>mean_ndcg\<close> returns \<open>1 / log\<^sub>2 3\<close> for the one query it averages, where C2's DCG / IDCG
  is \<open>1\<close>.
\<close>

theorem mean_ndcg_rank_discount:
  "mean_precision two_query_df [1, 2] = Inr (Finite 1, [1, 1]) \<and>
   mean_ndcg two_query_df [1, 1] = Inr (Finite (1 / log 2 3)) \<and>
   1 / log 2 3 < (1::real)"
  by (simp add: mean_precision_def mean_ndcg_def mean_ndcg_sorted_def two_query_df_def
      judged_row_def np_mean_def IDCG_list_def np_div_def)

subsection \<open>C6: the NDCG of a perfect ranking\<close>

text \<open>
  C6 states that a query whose relevant documents are all ranked first has NDCG 1. On a
  dataframe whose first query has two candidates, the relevant one at rank 1, the value
  \<^verbatim>\<open>mean_ndcg\<close> computes for that query is \<open>(1 / log\<^sub>2 3) / (1 + 1 / log\<^sub>2 3)\<close>, below 1: the
  DCG is discounted by \<open>log\<^sub>2 (rank + 2)\<close> and the IDCG sums over all retrieved rows.
\<close>

theorem mean_ndcg_perfect_ranking:
  "mean_precision perfect_df [1, 2] = Inr (Finite (3 / 4), [2, 1]) \<and>
   mean_ndcg perfect_df [2, 1] = Inr (Finite ((1 / log 2 3) / (1 + 1 / log 2 3))) \<and>
   (1 / log 2 3) / (1 + 1 / log 2 3) < (1::real)"
proof -
  have "mean_precision perfect_df [1, 2] = Inr (Finite (3 / 4), [2, 1])"
    by (simp add: mean_precision_def perfect_df_def judged_row_def np_mean_def)
  moreover have "mean_ndcg perfect_df [2, 1] = Inr (Finite ((1 / log 2 3) / (1 + 1 / log 2 3)))"
    by (simp add: mean_ndcg_def mean_ndcg_sorted_def perfect_df_def judged_row_def np_mean_def
        IDCG_two_one np_div_def idcg_two_pos)
  moreover have "(1 / log 2 3) / (1 + 1 / log 2 3) < (1::real)"
    by (rule ratio_lt_one [OF log_2_3_pos])
  ultimately show ?thesis by blast
qed

subsection \<open>C5: which queries enter the mean\<close>




subsection \<open>C1: the rows \<^verbatim>\<open>mean_precision\<close> counts\<close>

text \<open>
  C1 states the precision over the K top-ranked rows of each query, as the comment above
  \<^verbatim>\<open>mean_precision\<close> does ("takes top 100 ranks for each query"). The code takes
  \<^verbatim>\<open>.head(100)\<close> of the query's rows in dataframe order, never sorted by rank. On a query
  with 101 candidates whose only relevant row is ranked first and stands last in the
  dataframe, the code returns the precision 0 over 100 retrieved rows, where the 100
  top-ranked rows hold one relevant row (precision 1/100).
\<close>

theorem mean_precision_first_rows:
  "mean_precision long_query_df [1] = Inr (Finite 0, [100]) \<and>
   length (filter (\<lambda>r. relevancy r = 1 \<and> rank r \<le> 100) long_query_df) = 1 \<and>
   map rank (filter (\<lambda>r. relevancy r = 1) long_query_df) = [1]"
proof -
  have all: "filter (\<lambda>r. qid r = 1) long_query_df = long_query_df"
    by (simp add: long_query_df_def judged_row_def filter_map comp_def)
  have top: "take 100 long_query_df = map (\<lambda>i. judged_row (int i) 1 0 0 (i + 2)) [0..<100]"
    by (simp add: long_query_df_def)
  have rel: "filter (\<lambda>r. relevancy r = 1) long_query_df = [judged_row 100 1 1 1 1]"
    by (simp add: long_query_df_def judged_row_def filter_map comp_def)
  have ov: "filter (\<lambda>r. relevancy r = 1 \<and>
              idx r \<in> set (map idx (map (\<lambda>i. judged_row (int i) 1 0 0 (i + 2)) [0..<100])))
              long_query_df = []"
    by (auto simp: long_query_df_def judged_row_def filter_map comp_def filter_empty_conv)
  have "precision_loop long_query_df [1] [] [] = Inr ([0], [100])"
    unfolding precision_loop.simps Let_def all top ov by simp
  then have "mean_precision long_query_df [1] = Inr (Finite 0, [100])"
    by (simp add: mean_precision_def np_mean_def)
  moreover have "length (filter (\<lambda>r. relevancy r = 1 \<and> rank r \<le> 100) long_query_df) = 1"
    by (simp add: long_query_df_def judged_row_def filter_map comp_def)
  moreover have "map rank (filter (\<lambda>r. relevancy r = 1) long_query_df) = [1]"
    by (simp add: rel judged_row_def)
  ultimately show ?thesis by blast
qed

subsection \<open>The ranking step\<close>

lemma insort_precedes:
  assumes "sorted_wrt (precedes xs) ys" and "\<forall>y\<in>set ys. x < y"
  shows "sorted_wrt (precedes xs) (insort_key (\<lambda>i. - xs ! i) x ys)"
  using assms
proof (induction ys)
  case Nil
  then show ?case by simp
next
  case (Cons y ys)
  show ?case
  proof (cases "- xs ! x \<le> - xs ! y")
    case True
    have "precedes xs x z" if "z \<in> set (y # ys)" for z
    proof -
      have "xs ! z \<le> xs ! y"
        using that Cons.prems(1) by (auto simp: precedes_def)
      moreover have "x < z" using that Cons.prems(2) by auto
      ultimately show ?thesis using True by (auto simp: precedes_def)
    qed
    with True Cons.prems(1) show ?thesis by simp
  next
    case False
    then have "precedes xs y x" by (simp add: precedes_def)
    moreover have "sorted_wrt (precedes xs) (insort_key (\<lambda>i. - xs ! i) x ys)"
      using Cons by simp
    ultimately show ?thesis using False Cons.prems(1) by (auto simp: set_insort_key)
  qed
qed

lemma sort_key_precedes:
  "sorted_wrt (<) ys \<Longrightarrow> sorted_wrt (precedes xs) (sort_key (\<lambda>i. - xs ! i) ys)"
proof (induction ys)
  case Nil
  then show ?case by simp
next
  case (Cons y ys)
  then show ?case by (auto intro!: insort_precedes)
qed

lemma rank_order_precedes: "sorted_wrt (precedes xs) (rank_order xs)"
  unfolding rank_order_def by (rule sort_key_precedes) simp

lemma rank_order_set: "set (rank_order xs) = {0..<length xs}"
  by (simp add: rank_order_def)

lemma rank_order_distinct: "distinct (rank_order xs)"
  by (simp add: rank_order_def)

lemma rank_order_length: "length (rank_order xs) = length xs"
  by (simp add: rank_order_def)

lemma position_in: 
  "i \<in> set ys \<Longrightarrow> length (takeWhile (\<lambda>j. j \<noteq> i) ys) < length ys \<and>
     ys ! length (takeWhile (\<lambda>j. j \<noteq> i) ys) = i"
  by (induction ys) auto

lemma positions_distinct:
  "distinct ys \<Longrightarrow> map (\<lambda>y. length (takeWhile (\<lambda>j. j \<noteq> y) ys)) ys = [0..<length ys]"
proof (induction ys)
  case Nil
  then show ?case by simp
next
  case (Cons y ys)
  have tl: "map (\<lambda>z. length (takeWhile (\<lambda>j. j \<noteq> z) (y # ys))) ys =
        map (\<lambda>z. Suc (length (takeWhile (\<lambda>j. j \<noteq> z) ys))) ys"
    by (rule map_cong) (use Cons.prems in auto)
  have "map (\<lambda>z. Suc (length (takeWhile (\<lambda>j. j \<noteq> z) ys))) ys =
        map Suc (map (\<lambda>z. length (takeWhile (\<lambda>j. j \<noteq> z) ys)) ys)"
    by simp
  also have "\<dots> = map Suc [0..<length ys]"
    using Cons by simp
  also have "\<dots> = [Suc 0..<Suc (length ys)]"
    by (rule map_Suc_upt)
  finally have tl': "map (\<lambda>z. length (takeWhile (\<lambda>j. j \<noteq> z) (y # ys))) ys =
        [Suc 0..<Suc (length ys)]"
    using tl by simp
  have "[0..<Suc (length ys)] = 0 # [Suc 0..<Suc (length ys)]"
    by (rule upt_conv_Cons) simp
  with tl' show ?case by simp
qed


lemma precedes_asym: "precedes xs i j \<Longrightarrow> \<not> precedes xs j i"
  by (auto simp: precedes_def)

lemma rank_scores_length: "length (rank_scores xs) = length xs"
  by (simp add: rank_scores_def)

lemma rank_scores_nth:
  "i < length xs \<Longrightarrow>
   rank_scores xs ! i = 1 + length (takeWhile (\<lambda>j. j \<noteq> i) (rank_order xs))"
  by (simp add: rank_scores_def)

lemma rank_scores_mset: "mset (rank_scores xs) = mset [1..<length xs + 1]"
proof -
  let ?pos = "\<lambda>i. length (takeWhile (\<lambda>j. j \<noteq> i) (rank_order xs))"
  have "mset (rank_scores xs) = image_mset (\<lambda>i. 1 + ?pos i) (mset [0..<length xs])"
    by (simp add: rank_scores_def)
  also have "mset [0..<length xs] = mset (rank_order xs)"
    by (simp add: rank_order_def)
  also have "image_mset (\<lambda>i. 1 + ?pos i) (mset (rank_order xs)) =
             mset (map Suc (map ?pos (rank_order xs)))"
    by (simp add: comp_def)
  also have "map ?pos (rank_order xs) = [0..<length xs]"
    using positions_distinct [OF rank_order_distinct, of xs] by (simp add: rank_order_length)
  also have "map Suc [0..<length xs] = [1..<length xs + 1]"
    by (simp add: map_Suc_upt)
  finally show ?thesis .
qed

lemma rank_scores_less_iff:
  assumes "i < length xs" and "j < length xs" and "i \<noteq> j"
  shows "(rank_scores xs ! i < rank_scores xs ! j) = precedes xs i j"
proof -
  let ?ord = "rank_order xs"
  let ?pos = "\<lambda>i. length (takeWhile (\<lambda>j. j \<noteq> i) ?ord)"
  have ini: "i \<in> set ?ord" and inj: "j \<in> set ?ord"
    using assms by (simp_all add: rank_order_set)
  from position_in [OF ini] have pi: "?pos i < length ?ord" "?ord ! ?pos i = i" by simp_all
  from position_in [OF inj] have pj: "?pos j < length ?ord" "?ord ! ?pos j = j" by simp_all
  have ne: "?pos i \<noteq> ?pos j"
    using pi(2) pj(2) assms(3) by metis
  have fwd: "precedes xs i j" if "?pos i < ?pos j"
    using sorted_wrt_nth_less [OF rank_order_precedes that pj(1)] pi(2) pj(2) by simp
  have bwd: "precedes xs j i" if "?pos j < ?pos i"
    using sorted_wrt_nth_less [OF rank_order_precedes that pi(1)] pi(2) pj(2) by simp
  have "(?pos i < ?pos j) = precedes xs i j"
  proof
    assume "?pos i < ?pos j" then show "precedes xs i j" by (rule fwd)
  next
    assume p: "precedes xs i j"
    show "?pos i < ?pos j"
    proof (rule ccontr)
      assume "\<not> ?pos i < ?pos j"
      with ne have "?pos j < ?pos i" by simp
      then have "precedes xs j i" by (rule bwd)
      with precedes_asym [OF p] show False by simp
    qed
  qed
  then show ?thesis
    using assms(1,2) by (simp add: rank_scores_nth)
qed

lemma filter_assign_from:
  assumes "seen q + length (filter (\<lambda>r. qid r = q) rs) \<le> length (ranks q)"
  shows "filter (\<lambda>r. qid r = q) (assign_from ranks seen rs) =
           map2 (\<lambda>r k. r\<lparr>rank := k\<rparr>) (filter (\<lambda>r. qid r = q) rs) (drop (seen q) (ranks q))"
  using assms
proof (induction rs arbitrary: seen)
  case Nil
  then show ?case by simp
next
  case (Cons r rs)
  define seen' where "seen' = seen(qid r := seen (qid r) + 1)"
  have step: "assign_from ranks seen (r # rs) =
                r\<lparr>rank := ranks (qid r) ! seen (qid r)\<rparr> # assign_from ranks seen' rs"
    by (simp add: seen'_def)
  show ?case
  proof (cases "qid r = q")
    case True
    with Cons.prems have lt: "seen q < length (ranks q)" by simp
    have s': "seen' q = Suc (seen q)" using True by (simp add: seen'_def)
    have "seen' q + length (filter (\<lambda>r. qid r = q) rs) \<le> length (ranks q)"
      using Cons.prems True s' by simp
    then have IH: "filter (\<lambda>r. qid r = q) (assign_from ranks seen' rs) =
             map2 (\<lambda>r k. r\<lparr>rank := k\<rparr>) (filter (\<lambda>r. qid r = q) rs) (drop (seen' q) (ranks q))"
      by (rule Cons.IH)
    have "drop (seen q) (ranks q) = ranks q ! seen q # drop (Suc (seen q)) (ranks q)"
      using lt by (simp add: Cons_nth_drop_Suc)
    with IH True s' show ?thesis unfolding step by simp
  next
    case False
    have s': "seen' q = seen q" using False by (simp add: seen'_def)
    have "seen' q + length (filter (\<lambda>r. qid r = q) rs) \<le> length (ranks q)"
      using Cons.prems False s' by simp
    then have IH: "filter (\<lambda>r. qid r = q) (assign_from ranks seen' rs) =
             map2 (\<lambda>r k. r\<lparr>rank := k\<rparr>) (filter (\<lambda>r. qid r = q) rs) (drop (seen' q) (ranks q))"
      by (rule Cons.IH)
    with False s' show ?thesis unfolding step by simp
  qed
qed

lemma filter_assign_rank:
  "filter (\<lambda>r. qid r = q) (assign_rank df) =
     map2 (\<lambda>r k. r\<lparr>rank := k\<rparr>) (filter (\<lambda>r. qid r = q) df)
          (rank_scores (map bm25 (filter (\<lambda>r. qid r = q) df)))"
  unfolding assign_rank_def
  by (subst filter_assign_from) (simp_all add: rank_scores_length)

lemma map_rank_update:
  "length ks = length g \<Longrightarrow> map rank (map2 (\<lambda>r k. r\<lparr>rank := k\<rparr>) g ks) = ks"
  by (induction g ks rule: list_induct2') auto

subsection \<open>C3: ranks are a permutation of 1..N, by descending score, ties by row order\<close>

text \<open>
  C3: for every query \<open>q\<close>, with \<open>g\<close> its candidate rows in dataframe order and \<open>ranks\<close> the
  ranks the ranking step assigns to them: the step changes nothing but the rank column;
  the ranks are a permutation of 1..N for N the number of candidates; the row of rank 1
  has the maximal score; a higher score gets a smaller rank; and of two rows with equal
  scores the one that comes first in the dataframe gets the smaller rank.
\<close>

theorem assign_rank_permutation:
  assumes "g = filter (\<lambda>r. qid r = q) df"
    and "ranks = map rank (filter (\<lambda>r. qid r = q) (assign_rank df))"
  shows "filter (\<lambda>r. qid r = q) (assign_rank df) = map2 (\<lambda>r k. r\<lparr>rank := k\<rparr>) g ranks \<and>
         mset ranks = mset [1..<length g + 1] \<and>
         (\<forall>i<length g. ranks ! i = 1 \<longrightarrow> (\<forall>j<length g. bm25 (g ! j) \<le> bm25 (g ! i))) \<and>
         (\<forall>i<length g. \<forall>j<length g. bm25 (g ! j) < bm25 (g ! i) \<longrightarrow> ranks ! i < ranks ! j) \<and>
         (\<forall>i<length g. \<forall>j<length g. bm25 (g ! i) = bm25 (g ! j) \<and> i < j \<longrightarrow>
            ranks ! i < ranks ! j)"
proof -
  let ?xs = "map bm25 g"
  have len: "length ?xs = length g" by simp
  have ranks: "ranks = rank_scores ?xs"
    unfolding assms(2) filter_assign_rank assms(1) [symmetric]
    by (rule map_rank_update) (simp add: rank_scores_length)
  have rows: "filter (\<lambda>r. qid r = q) (assign_rank df) = map2 (\<lambda>r k. r\<lparr>rank := k\<rparr>) g ranks"
    unfolding ranks filter_assign_rank assms(1) ..
  have perm: "mset ranks = mset [1..<length g + 1]"
    unfolding ranks using rank_scores_mset [of ?xs] by simp
  have higher: "ranks ! i < ranks ! j"
    if "i < length g" "j < length g" "bm25 (g ! j) < bm25 (g ! i)" for i j
  proof -
    from that have "i \<noteq> j" by auto
    moreover have "precedes ?xs i j" using that by (simp add: precedes_def)
    ultimately show ?thesis
      unfolding ranks using rank_scores_less_iff [of i ?xs j] that(1,2) by simp
  qed
  have ties: "ranks ! i < ranks ! j"
    if "i < length g" "j < length g" "bm25 (g ! i) = bm25 (g ! j)" "i < j" for i j
  proof -
    have "precedes ?xs i j" using that by (simp add: precedes_def)
    then show ?thesis
      unfolding ranks using rank_scores_less_iff [of i ?xs j] that by simp
  qed
  have first: "bm25 (g ! j) \<le> bm25 (g ! i)"
    if "i < length g" "ranks ! i = 1" "j < length g" for i j
  proof (rule ccontr)
    assume "\<not> bm25 (g ! j) \<le> bm25 (g ! i)"
    then have "bm25 (g ! i) < bm25 (g ! j)" by simp
    from higher [OF that(3) that(1) this] that(2) have "ranks ! j < 1" by simp
    moreover have "1 \<le> ranks ! j"
      unfolding ranks using that(3) by (simp add: rank_scores_nth)
    ultimately show False by simp
  qed
  from rows perm first higher ties show ?thesis by blast
qed

text \<open>
  Witness for C3: query 1 of the dataframe with ties has the scores 2, 5, 2, 5 and gets
  the ranks 3, 1, 4, 2.
\<close>

theorem assign_rank_permutation_witness:
  "map rank (assign_rank tie_df) = [3, 1, 1, 4, 2] \<and>
   map rank (filter (\<lambda>r. qid r = 1) (assign_rank tie_df)) = [3, 1, 4, 2] \<and>
   mset (map rank (filter (\<lambda>r. qid r = 1) (assign_rank tie_df))) =
     mset [1..<length (filter (\<lambda>r. qid r = 1) tie_df) + 1]"
proof -
  have rk: "map rank (assign_rank tie_df) = [3, 1, 1, 4, 2]"
    by (simp add: assign_rank_def tie_df_def judged_row_def rank_scores_def rank_order_def)
  have rk1: "map rank (filter (\<lambda>r. qid r = 1) (assign_rank tie_df)) = [3, 1, 4, 2]"
    by (simp add: assign_rank_def tie_df_def judged_row_def rank_scores_def rank_order_def)
  have "mset (map rank (filter (\<lambda>r. qid r = 1) (assign_rank tie_df))) =
          mset [1..<length (filter (\<lambda>r. qid r = 1) tie_df) + 1]"
    by (rule conjunct1 [OF conjunct2 [OF assign_rank_permutation [OF refl refl]]])
  with rk rk1 show ?thesis by blast
qed

subsection \<open>The BM25 formula\<close>












subsection \<open>C4: the score formula, on each query's own candidate set\<close>



subsection \<open>C7: monotonicity in the term frequency\<close>




end
